theory Spec2Isabelle
  imports Complex_Main
begin

section \<open>Python strings\<close>

text \<open>
  A Python \<open>str\<close> is modelled as a \<open>string\<close> whose characters are the code points below 256.
  The line boundaries of \<open>str.splitlines\<close> and the whitespace of \<open>str.strip\<close> and
  \<open>str.split\<close> are the ones Python defines in that range; the boundaries U+2028 and U+2029
  and the Unicode spaces above U+00FF lie outside the character type.
\<close>

definition is_linebreak :: "char \<Rightarrow> bool" where
  "is_linebreak c \<longleftrightarrow>
     c = CHR 0x0A \<or> c = CHR 0x0B \<or> c = CHR 0x0C \<or> c = CHR 0x0D \<or>
     c = CHR 0x1C \<or> c = CHR 0x1D \<or> c = CHR 0x1E \<or> c = CHR 0x85"

definition is_space :: "char \<Rightarrow> bool" where
  "is_space c \<longleftrightarrow>
     c = CHR 0x09 \<or> c = CHR 0x0A \<or> c = CHR 0x0B \<or> c = CHR 0x0C \<or> c = CHR 0x0D \<or>
     c = CHR 0x1C \<or> c = CHR 0x1D \<or> c = CHR 0x1E \<or> c = CHR 0x1F \<or>
     c = CHR 0x20 \<or> c = CHR 0x85 \<or> c = CHR 0xA0"

text \<open>
  \<open>text.splitlines()\<close>: the text is cut at every line boundary, a carriage return followed
  by a line feed counting as one boundary; the boundaries are not kept, and a text that ends
  with a boundary has no empty last line. The first argument is the line read so far, reversed.
\<close>

fun splitlines_from :: "string \<Rightarrow> string \<Rightarrow> string list" where
  "splitlines_from cur [] = (if cur = [] then [] else [rev cur])"
| "splitlines_from cur [c] =
     (if is_linebreak c then [rev cur] else [rev (c # cur)])"
| "splitlines_from cur (c # d # cs) =
     (if c = CHR 0x0D \<and> d = CHR 0x0A then rev cur # splitlines_from [] cs
      else if is_linebreak c then rev cur # splitlines_from [] (d # cs)
      else splitlines_from (c # cur) (d # cs))"

definition splitlines :: "string \<Rightarrow> string list" where
  "splitlines text = splitlines_from [] text"

text \<open>\<open>s.strip()\<close>: leading and trailing whitespace removed.\<close>

definition strip :: "string \<Rightarrow> string" where
  "strip s = rev (dropWhile is_space (rev (dropWhile is_space s)))"

text \<open>
  \<open>s.split()\<close> with no separator: the maximal runs of non-whitespace characters, in order;
  never an empty token. The first argument is the token read so far, reversed.
\<close>

fun split_from :: "string \<Rightarrow> string \<Rightarrow> string list" where
  "split_from cur [] = (if cur = [] then [] else [rev cur])"
| "split_from cur (c # cs) =
     (if is_space c then (if cur = [] then split_from [] cs else rev cur # split_from [] cs)
      else split_from (c # cur) cs)"

definition split :: "string \<Rightarrow> string list" where
  "split s = split_from [] s"

text \<open>\<open>s.startswith(p)\<close>.\<close>

definition startswith :: "string \<Rightarrow> string \<Rightarrow> bool" where
  "startswith s p \<longleftrightarrow> take (length p) s = p"

section \<open>The metric text parser (metrics\_bridge.py)\<close>

text \<open>
  The dictionary \<open>metrics\<close> is a map from metric name to value. Python's \<open>float(value)\<close> on a
  string either returns a float or raises \<open>ValueError\<close>; it is a parameter \<open>float\<close> of the
  model, with \<open>None\<close> for the raise, and the type of its values is left open. The body of
  the loop over the lines is \<open>parse_line\<close>: the \<open>continue\<close>, the failed length test and the
  \<open>except ValueError: pass\<close> all leave the dictionary as it is.
\<close>

type_synonym 'v metrics = "string \<rightharpoonup> 'v"

definition parse_line :: "(string \<Rightarrow> 'v option) \<Rightarrow> 'v metrics \<Rightarrow> string \<Rightarrow> 'v metrics" where
  "parse_line float metrics line =
     (if startswith line ''#'' \<or> CHR ''{'' \<in> set line then metrics
      else (case split (strip line) of
              [name, val] \<Rightarrow>
                (case float val of
                   Some v \<Rightarrow> metrics(name \<mapsto> v)
                 | None \<Rightarrow> metrics)
            | _ \<Rightarrow> metrics))"

definition parse_lines :: "(string \<Rightarrow> 'v option) \<Rightarrow> 'v metrics \<Rightarrow> string list \<Rightarrow> 'v metrics" where
  "parse_lines float metrics ls = foldl (parse_line float) metrics ls"

definition parse_prometheus_metrics :: "(string \<Rightarrow> 'v option) \<Rightarrow> string \<Rightarrow> 'v metrics" where
  "parse_prometheus_metrics float text = parse_lines float Map.empty (splitlines text)"





section \<open>Requests, responses and observable effects\<close>

text \<open>
  A call of \<open>requests.get\<close> or \<open>requests.post\<close> either raises an exception (\<open>Inl\<close>) or
  returns a response with a status code and a text (\<open>res_text\<close> for \<open>.text\<close>). What a function does to the outside is
  the list of its effects in order: the requests it sends, the lines it prints and the
  sleeps it takes. The body of a POST is of the type the caller hands over.
\<close>

datatype exn = ConnectionError | Timeout | IndexError | TypeError | ValueError

record response =
  status_code :: int
  res_text :: string

type_synonym http = "exn + response"

datatype log =
    Banner
  | Pushed string
  | PushFailed int string
  | PushError exn
  | CannotFetch string int
  | FetchError string exn
  | BulkFailed int string
  | BulkError exn

datatype 'b event =
    HttpGet string
  | HttpPost string "(string \<times> string) list" 'b
  | Print log
  | Sleep real




section \<open>The bridge (metrics\_bridge.py)\<close>

definition PROM_ENDPOINTS :: "string list" where
  "PROM_ENDPOINTS = [''http://localhost:8000/metrics'', ''http://localhost:8011/metrics'']"

definition ELASTIC_URL :: string where
  "ELASTIC_URL = ''http://localhost:9200/rag_metrics/_doc''"

record ('t, 'v) payload =
  timestamp :: 't
  service :: string
  metrics :: "'v metrics"

text \<open>
  The world the bridge runs in. Logical time is the number of effects so far: \<open>http_get\<close>
  and \<open>http_post\<close> give the outcome of a request sent at that time, \<open>utcnow\<close> the reading of
  the clock. \<open>except Exception\<close> catches every exception of type \<open>exn\<close>.
\<close>

record ('t, 'v) env =
  http_get :: "nat \<Rightarrow> string \<Rightarrow> http"
  http_post :: "nat \<Rightarrow> string \<Rightarrow> ('t, 'v) payload \<Rightarrow> http"
  utcnow :: "nat \<Rightarrow> 't"

text \<open>
  \<open>push_to_elasticsearch\<close>: one call of \<open>requests.post\<close>, then one printed line; every
  exception is caught. \<open>res.text[:120]\<close> is \<open>take 120\<close>.
\<close>

definition push_to_elasticsearch ::
  "('t, 'v) env \<Rightarrow> ('t, 'v) payload event list \<Rightarrow> string \<Rightarrow> 'v metrics
     \<Rightarrow> ('t, 'v) payload event list" where
  "push_to_elasticsearch env tr service_name ms =
     (let payload = \<lparr>timestamp = utcnow env (length tr), service = service_name, metrics = ms\<rparr>;
          tr1 = tr @ [HttpPost ELASTIC_URL [] payload]
      in case http_post env (length tr) ELASTIC_URL payload of
           Inr res \<Rightarrow>
             if status_code res = 200 \<or> status_code res = 201
             then tr1 @ [Print (Pushed service_name)]
             else tr1 @ [Print (PushFailed (status_code res) (take 120 (res_text res)))]
         | Inl e \<Rightarrow> tr1 @ [Print (PushError e)])"

text \<open>
  \<open>s.split(sep)\<close> with a separator: cut at every occurrence, empty pieces kept, never an
  empty list. \<open>url.split(":")[2].split("/")[0]\<close> raises \<open>IndexError\<close> when the URL has fewer
  than two colons; the expression stands outside the \<open>try\<close>.
\<close>

fun split_on :: "char \<Rightarrow> string \<Rightarrow> string \<Rightarrow> string list" where
  "split_on sep cur [] = [rev cur]"
| "split_on sep cur (c # cs) =
     (if c = sep then rev cur # split_on sep [] cs else split_on sep (c # cur) cs)"

definition service_name_of :: "string \<Rightarrow> exn + string" where
  "service_name_of url =
     (case split_on CHR '':'' [] url of
        a # b # c # _ \<Rightarrow> (case split_on CHR ''/'' [] c of x # _ \<Rightarrow> Inr x | [] \<Rightarrow> Inl IndexError)
      | _ \<Rightarrow> Inl IndexError)"

text \<open>
  The body of \<open>for url in PROM_ENDPOINTS\<close>, and the loop. An exception that nothing catches
  leaves the loop (\<open>Inl\<close>).
\<close>

definition poll_source ::
  "(string \<Rightarrow> 'v option) \<Rightarrow> ('t, 'v) env \<Rightarrow> ('t, 'v) payload event list \<Rightarrow> string
     \<Rightarrow> exn + ('t, 'v) payload event list" where
  "poll_source float env tr url =
     (case service_name_of url of
        Inl e \<Rightarrow> Inl e
      | Inr service_name \<Rightarrow>
          (let tr1 = tr @ [HttpGet url]
           in case http_get env (length tr) url of
                Inr r \<Rightarrow>
                  if status_code r = 200
                  then Inr (push_to_elasticsearch env tr1 service_name
                              (parse_prometheus_metrics float (res_text r)))
                  else Inr (tr1 @ [Print (CannotFetch url (status_code r))])
              | Inl e \<Rightarrow> Inr (tr1 @ [Print (FetchError url e)])))"

fun poll_sources ::
  "(string \<Rightarrow> 'v option) \<Rightarrow> ('t, 'v) env \<Rightarrow> ('t, 'v) payload event list \<Rightarrow> string list
     \<Rightarrow> exn + ('t, 'v) payload event list" where
  "poll_sources float env tr [] = Inr tr"
| "poll_sources float env tr (url # urls) =
     (case poll_source float env tr url of
        Inl e \<Rightarrow> Inl e
      | Inr tr' \<Rightarrow> poll_sources float env tr' urls)"

text \<open>
  One pass of \<open>while True\<close> in \<open>main\<close>: the sources in the order of the configuration, then
  \<open>time.sleep(10)\<close>. \<open>main_loop n\<close> is the banner and the first \<open>n\<close> passes of the loop,
  which has no exit of its own.
\<close>

definition tick ::
  "(string \<Rightarrow> 'v option) \<Rightarrow> ('t, 'v) env \<Rightarrow> ('t, 'v) payload event list
     \<Rightarrow> exn + ('t, 'v) payload event list" where
  "tick float env tr =
     (case poll_sources float env tr PROM_ENDPOINTS of
        Inl e \<Rightarrow> Inl e
      | Inr tr' \<Rightarrow> Inr (tr' @ [Sleep 10]))"

fun ticks ::
  "nat \<Rightarrow> (string \<Rightarrow> 'v option) \<Rightarrow> ('t, 'v) env \<Rightarrow> ('t, 'v) payload event list
     \<Rightarrow> exn + ('t, 'v) payload event list" where
  "ticks 0 float env tr = Inr tr"
| "ticks (Suc n) float env tr =
     (case tick float env tr of
        Inl e \<Rightarrow> Inl e
      | Inr tr' \<Rightarrow> ticks n float env tr')"

definition main_loop ::
  "nat \<Rightarrow> (string \<Rightarrow> 'v option) \<Rightarrow> ('t, 'v) env \<Rightarrow> exn + ('t, 'v) payload event list" where
  "main_loop n float env = ticks n float env [Print Banner]"

text \<open>A world that never changes: every GET has one outcome, every POST another.\<close>

definition steady :: "http \<Rightarrow> http \<Rightarrow> 't \<Rightarrow> ('t, 'v) env" where
  "steady g p now = \<lparr>http_get = (\<lambda>t url. g), http_post = (\<lambda>t url body. p), utcnow = (\<lambda>t. now)\<rparr>"

text \<open>A world in which one source answers 200 with a text and no other source is reachable.\<close>

definition one_source_up :: "string \<Rightarrow> string \<Rightarrow> http \<Rightarrow> 't \<Rightarrow> ('t, 'v) env" where
  "one_source_up url body p now =
     \<lparr>http_get = (\<lambda>t u. if u = url then Inr \<lparr>status_code = 200, res_text = body\<rparr>
                         else Inl ConnectionError),
      http_post = (\<lambda>t u b. p), utcnow = (\<lambda>t. now)\<rparr>"

section \<open>JSON text (json.dumps)\<close>

text \<open>
  The values \<open>json.dumps\<close> is given, and the text it returns with its default settings:
  items separated by a comma and a space, keys from values by a colon and a space, and in a
  string every quote, backslash and character outside the printable ASCII range escaped.
  A number carries the text Python prints for it. Keys are strings.
\<close>

datatype json =
    JNull
  | JBool bool
  | JNum string
  | JStr string
  | JArr "json list"
  | JObj "(string \<times> json) list"

definition hex_digit :: "nat \<Rightarrow> char" where
  "hex_digit n = ''0123456789abcdef'' ! (n mod 16)"

definition escape_char :: "char \<Rightarrow> string" where
  "escape_char c =
     (if c = CHR 0x22 then [CHR 0x5C, CHR 0x22]
      else if c = CHR 0x5C then [CHR 0x5C, CHR 0x5C]
      else if c = CHR 0x0A then [CHR 0x5C, CHR ''n'']
      else if c = CHR 0x0D then [CHR 0x5C, CHR ''r'']
      else if c = CHR 0x09 then [CHR 0x5C, CHR ''t'']
      else if c = CHR 0x08 then [CHR 0x5C, CHR ''b'']
      else if c = CHR 0x0C then [CHR 0x5C, CHR ''f'']
      else if (of_char c :: nat) < 32 \<or> 126 < (of_char c :: nat)
      then [CHR 0x5C, CHR ''u'', CHR ''0'', CHR ''0'',
            hex_digit (of_char c div 16), hex_digit (of_char c mod 16)]
      else [c])"

definition dumps_str :: "string \<Rightarrow> string" where
  "dumps_str s = [CHR 0x22] @ concat (map escape_char s) @ [CHR 0x22]"

text \<open>\<open>sep.join(xs)\<close>.\<close>

fun join :: "string \<Rightarrow> string list \<Rightarrow> string" where
  "join sep [] = []"
| "join sep [x] = x"
| "join sep (x # y # ys) = x @ sep @ join sep (y # ys)"

fun dumps :: "json \<Rightarrow> string" where
  "dumps JNull = ''null''"
| "dumps (JBool b) = (if b then ''true'' else ''false'')"
| "dumps (JNum s) = s"
| "dumps (JStr s) = dumps_str s"
| "dumps (JArr xs) = ''['' @ join '', '' (map dumps xs) @ '']''"
| "dumps (JObj kvs) =
     ''{'' @ join '', '' (map (\<lambda>kv. dumps_str (fst kv) @ '': '' @ dumps (snd kv)) kvs) @ ''}''"

text \<open>
  The text Python prints for a number contains no line boundary; \<open>plain\<close> says so of every
  number in a value.
\<close>

fun plain :: "json \<Rightarrow> bool" where
  "plain (JNum s) = (\<forall>c \<in> set s. \<not> is_linebreak c)"
| "plain (JArr xs) = (\<forall>x \<in> set xs. plain x)"
| "plain (JObj kvs) = (\<forall>kv \<in> set kvs. plain (snd kv))"
| "plain _ = True"

section \<open>The retrying POST (rag\_query.py)\<close>

text \<open>
  \<open>_post_json_with_retries\<close>. The loop \<open>for i in range(attempts)\<close> is \<open>retry_loop\<close>, with the
  index \<open>i\<close>, the number of passes left, \<open>last_exc\<close> and the effects so far; \<open>post i\<close> is
  the outcome of the call of \<open>requests.post\<close> in pass \<open>i\<close>. A response of any status is
  returned at once; only an exception leads to the sleep and the next pass.
  \<open>time.sleep\<close> raises \<open>ValueError\<close> on a negative length, and \<open>raise last_exc\<close> raises
  \<open>TypeError\<close> while \<open>last_exc\<close> is \<open>None\<close>. The float product \<open>backoff * (i + 1)\<close> is taken
  in the reals.
\<close>

fun retry_loop ::
  "(nat \<Rightarrow> http) \<Rightarrow> string \<Rightarrow> string \<Rightarrow> real \<Rightarrow> nat \<Rightarrow> nat \<Rightarrow> exn option \<Rightarrow> string event list
     \<Rightarrow> http \<times> string event list" where
  "retry_loop post url body backoff i 0 last_exc tr =
     (case last_exc of None \<Rightarrow> (Inl TypeError, tr) | Some e \<Rightarrow> (Inl e, tr))"
| "retry_loop post url body backoff i (Suc k) last_exc tr =
     (let tr1 = tr @ [HttpPost url [(''Content-Type'', ''application/json'')] body]
      in case post i of
           Inr res \<Rightarrow> (Inr res, tr1)
         | Inl e \<Rightarrow>
             if backoff * real (i + 1) < 0 then (Inl ValueError, tr1)
             else retry_loop post url body backoff (i + 1) k (Some e)
                    (tr1 @ [Sleep (backoff * real (i + 1))]))"

definition post_json_with_retries ::
  "(nat \<Rightarrow> http) \<Rightarrow> string \<Rightarrow> json \<Rightarrow> int \<Rightarrow> real \<Rightarrow> http \<times> string event list" where
  "post_json_with_retries post url payload attempts backoff =
     retry_loop post url (dumps payload) backoff 0 (nat attempts) None []"

text \<open>The outcomes of the passes as a list; past its end the transport times out.\<close>

definition outcomes :: "http list \<Rightarrow> nat \<Rightarrow> http" where
  "outcomes rs i = (if i < length rs then rs ! i else Inl Timeout)"

section \<open>The bulk writer (prom\_to\_es.py, load\_mock\_to\_es.py)\<close>

definition ES :: string where
  "ES = ''http://localhost:9200''"

definition INDEX :: string where
  "INDEX = ''prometheus_bridge''"

text \<open>The dictionary \<open>{"index": {"_index": name}}\<close>.\<close>

definition index_action :: "string \<Rightarrow> json" where
  "index_action name = JObj [(''index'', JObj [(''_index'', JStr name)])]"

text \<open>
  \<open>push_bulk_to_es\<close>: nothing at all on an empty list; otherwise the body is built by the
  loop over the documents and sent in one POST, and a line is printed only when the status is
  neither 200 nor 201 or the call raises. \<open>post\<close> gives the outcome of the POST of a body.
\<close>

definition push_bulk_to_es :: "(string \<Rightarrow> http) \<Rightarrow> json list \<Rightarrow> string event list" where
  "push_bulk_to_es post docs =
     (if docs = [] then []
      else
        (let bulk_data =
               foldl (\<lambda>acc doc. (acc @ dumps (index_action INDEX) @ ''\<newline>'') @ dumps doc @ ''\<newline>'')
                 [] docs
         in HttpPost (ES @ ''/_bulk'') [(''Content-Type'', ''application/x-ndjson'')] bulk_data #
            (case post bulk_data of
               Inr r \<Rightarrow>
                 if status_code r \<noteq> 200 \<and> status_code r \<noteq> 201
                 then [Print (BulkFailed (status_code r) (take 300 (res_text r)))]
                 else []
             | Inl e \<Rightarrow> [Print (BulkError e)])))"

text \<open>The body the loader of the mock data builds: the lines joined, then one more newline.\<close>

definition bulk_lines :: "json list \<Rightarrow> string list" where
  "bulk_lines data =
     concat (map (\<lambda>doc. [dumps (index_action ''prometheus_bridge''), dumps doc]) data)"

definition bulk_body :: "json list \<Rightarrow> string" where
  "bulk_body data = join ''\<newline>'' (bulk_lines data) @ ''\<newline>''"

section \<open>Properties of the parser\<close>














lemma split_examples:
  "split (strip ''a 1'') = [''a'', ''1'']"
  "split (strip ''a 2'') = [''a'', ''2'']"
  "split (strip ''b 3'') = [''b'', ''3'']"
  "split (strip ''bad_line_no_value'') = [''bad_line_no_value'']"
  by (simp_all add: split_def strip_def is_space_def)









section \<open>Properties of the bridge\<close>

lemma push_to_elasticsearch_trace:
  "\<exists>l. push_to_elasticsearch env tr sn ms =
         tr @ [HttpPost ELASTIC_URL []
                 \<lparr>timestamp = utcnow env (length tr), service = sn, metrics = ms\<rparr>, Print l]"
  by (simp add: push_to_elasticsearch_def Let_def split: sum.splits)

lemma poll_source_ok:
  assumes "service_name_of url = Inr sn" and "http_get env (length tr) url = Inr r"
    and "status_code r = 200"
  shows "poll_source float env tr url =
           Inr (push_to_elasticsearch env (tr @ [HttpGet url]) sn
                  (parse_prometheus_metrics float (res_text r)))"
  using assms by (simp add: poll_source_def)

lemma poll_source_status:
  assumes "service_name_of url = Inr sn" and "http_get env (length tr) url = Inr r"
    and "status_code r \<noteq> 200"
  shows "poll_source float env tr url = Inr (tr @ [HttpGet url, Print (CannotFetch url (status_code r))])"
  using assms by (simp add: poll_source_def)

lemma poll_source_raise:
  assumes "service_name_of url = Inr sn" and "http_get env (length tr) url = Inl e"
  shows "poll_source float env tr url = Inr (tr @ [HttpGet url, Print (FetchError url e)])"
  using assms by (simp add: poll_source_def)

lemma scenario_lines:
  "splitlines ''rag_queries_total 42\<newline>rag_retrieval_time_seconds 0.07\<newline># HELP ignored\<newline>bad_line_no_value\<newline>''
     = [''rag_queries_total 42'', ''rag_retrieval_time_seconds 0.07'', ''# HELP ignored'',
        ''bad_line_no_value'']"
  by (simp add: splitlines_def is_linebreak_def)

lemma scenario_tokens:
  "split (strip ''rag_queries_total 42'') = [''rag_queries_total'', ''42'']"
  "split (strip ''rag_retrieval_time_seconds 0.07'') = [''rag_retrieval_time_seconds'', ''0.07'']"
  by (simp_all add: split_def strip_def is_space_def)

lemma scenario_parse:
  assumes "float ''42'' = Some a" and "float ''0.07'' = Some b"
  shows "parse_prometheus_metrics float
           ''rag_queries_total 42\<newline>rag_retrieval_time_seconds 0.07\<newline># HELP ignored\<newline>bad_line_no_value\<newline>''
         = [''rag_queries_total'' \<mapsto> a, ''rag_retrieval_time_seconds'' \<mapsto> b]"
  unfolding parse_prometheus_metrics_def scenario_lines
  by (simp add: parse_lines_def parse_line_def startswith_def scenario_tokens split_examples assms)

lemma endpoint_names:
  "service_name_of ''http://localhost:8000/metrics'' = Inr ''8000''"
  "service_name_of ''http://localhost:8011/metrics'' = Inr ''8011''"
  by (simp_all add: service_name_of_def)

text \<open>
  Claim C9. On the text of the four lines \<open>rag_queries_total 42\<close>,
  \<open>rag_retrieval_time_seconds 0.07\<close>, \<open># HELP ignored\<close> and \<open>bad_line_no_value\<close> the parser
  yields exactly the two entries, with the values \<open>float\<close> gives for \<open>42\<close> and \<open>0.07\<close>; the
  comment and the malformed line are dropped. When a source answers 200 with this text, the
  document posted for it carries both values and the identifier of the source.
\<close>

theorem scenario_source_a:
  fixes float :: "string \<Rightarrow> 'v option" and env :: "('t, 'v) env"
  assumes "float ''42'' = Some a" and "float ''0.07'' = Some b"
    and "service_name_of url = Inr sn"
    and "http_get env (length tr) url = Inr \<lparr>status_code = 200, res_text =
           ''rag_queries_total 42\<newline>rag_retrieval_time_seconds 0.07\<newline># HELP ignored\<newline>bad_line_no_value\<newline>''\<rparr>"
  shows "parse_prometheus_metrics float
           ''rag_queries_total 42\<newline>rag_retrieval_time_seconds 0.07\<newline># HELP ignored\<newline>bad_line_no_value\<newline>''
         = [''rag_queries_total'' \<mapsto> a, ''rag_retrieval_time_seconds'' \<mapsto> b]
       \<and> (\<exists>l. poll_source float env tr url =
             Inr (tr @ [HttpGet url,
                        HttpPost ELASTIC_URL []
                          \<lparr>timestamp = utcnow env (Suc (length tr)), service = sn,
                           metrics = [''rag_queries_total'' \<mapsto> a, ''rag_retrieval_time_seconds'' \<mapsto> b]\<rparr>,
                        Print l]))"
proof -
  note p = scenario_parse [OF assms(1,2)]
  have "poll_source float env tr url =
          Inr (push_to_elasticsearch env (tr @ [HttpGet url]) sn
                 [''rag_queries_total'' \<mapsto> a, ''rag_retrieval_time_seconds'' \<mapsto> b])"
    using poll_source_ok [OF assms(3,4), of float] by (simp add: p)
  moreover obtain l where "push_to_elasticsearch env (tr @ [HttpGet url]) sn
                 [''rag_queries_total'' \<mapsto> a, ''rag_retrieval_time_seconds'' \<mapsto> b]
       = (tr @ [HttpGet url]) @ [HttpPost ELASTIC_URL []
                 \<lparr>timestamp = utcnow env (length (tr @ [HttpGet url])), service = sn,
                  metrics = [''rag_queries_total'' \<mapsto> a, ''rag_retrieval_time_seconds'' \<mapsto> b]\<rparr>, Print l]"
    using push_to_elasticsearch_trace by blast
  ultimately show ?thesis using p by simp
qed

text \<open>The theorem at the first configured source, with \<open>float\<close> given on the two tokens.\<close>

theorem scenario_source_a_witness:
  "poll_source (map_of [(''42'', 42::rat), (''0.07'', 7 / 100)])
     (steady (Inr \<lparr>status_code = 200, res_text =
        ''rag_queries_total 42\<newline>rag_retrieval_time_seconds 0.07\<newline># HELP ignored\<newline>bad_line_no_value\<newline>''\<rparr>)
        (Inr \<lparr>status_code = 201, res_text = ''''\<rparr>) (0::nat))
     [] ''http://localhost:8000/metrics''
   = Inr [HttpGet ''http://localhost:8000/metrics'',
          HttpPost ELASTIC_URL []
            \<lparr>timestamp = 0, service = ''8000'',
             metrics = [''rag_queries_total'' \<mapsto> 42, ''rag_retrieval_time_seconds'' \<mapsto> 7 / 100]\<rparr>,
          Print (Pushed ''8000'')]"
proof -
  let ?f = "map_of [(''42'', 42::rat), (''0.07'', 7 / 100)]"
  let ?text = "''rag_queries_total 42\<newline>rag_retrieval_time_seconds 0.07\<newline># HELP ignored\<newline>bad_line_no_value\<newline>''"
  let ?env = "steady (Inr \<lparr>status_code = 200, res_text = ?text\<rparr>)
                (Inr \<lparr>status_code = 201, res_text = ''''\<rparr>) (0::nat) :: (nat, rat) env"
  have f1: "?f ''42'' = Some 42" and f2: "?f ''0.07'' = Some (7 / 100)" by simp_all
  have g: "http_get ?env (length ([] :: (nat, rat) payload event list)) ''http://localhost:8000/metrics''
             = Inr \<lparr>status_code = 200, res_text = ?text\<rparr>"
    by (simp add: steady_def)
  from scenario_source_a [OF f1 f2 endpoint_names(1) g]
  have "\<exists>l. poll_source ?f ?env [] ''http://localhost:8000/metrics''
     = Inr ([] @ [HttpGet ''http://localhost:8000/metrics'',
          HttpPost ELASTIC_URL []
            \<lparr>timestamp = utcnow ?env (Suc (length ([] :: (nat, rat) payload event list))), service = ''8000'',
             metrics = [''rag_queries_total'' \<mapsto> 42, ''rag_retrieval_time_seconds'' \<mapsto> 7 / 100]\<rparr>,
          Print l])"
    by (rule conjunct2)
  then obtain l where l: "poll_source ?f ?env [] ''http://localhost:8000/metrics''
     = Inr ([] @ [HttpGet ''http://localhost:8000/metrics'',
          HttpPost ELASTIC_URL []
            \<lparr>timestamp = utcnow ?env (Suc (length ([] :: (nat, rat) payload event list))), service = ''8000'',
             metrics = [''rag_queries_total'' \<mapsto> 42, ''rag_retrieval_time_seconds'' \<mapsto> 7 / 100]\<rparr>,
          Print l])"
    ..
  have "l = Pushed ''8000''"
    using l poll_source_ok [OF endpoint_names(1) g, of ?f]
    by (simp add: push_to_elasticsearch_def Let_def steady_def)
  with l show ?thesis by (simp add: steady_def)
qed




lemma steady_simps:
  "http_get (steady g p now) t url = g"
  "http_post (steady g p now) t url body = p"
  "utcnow (steady g p now) t = now"
  by (simp_all add: steady_def)

lemma parse_empty_text: "parse_prometheus_metrics float [] = Map.empty"
  by (simp add: parse_prometheus_metrics_def parse_lines_def splitlines_def)




text \<open>
  Claim C5, as amended. A fetch counts as a success only when the status code is 200: then
  the body is parsed and the document is pushed to the sink. Any other response, another
  2xx code included, and any exception make the bridge print a line and skip the source for
  that pass.
\<close>

theorem fetch_success_is_status_200:
  fixes float :: "string \<Rightarrow> 'v option" and env :: "('t, 'v) env"
  assumes "service_name_of url = Inr sn"
  shows "(\<forall>r. http_get env (length tr) url = Inr r \<and> status_code r = 200 \<longrightarrow>
            (\<exists>l. poll_source float env tr url =
               Inr (tr @ [HttpGet url,
                          HttpPost ELASTIC_URL []
                            \<lparr>timestamp = utcnow env (Suc (length tr)), service = sn,
                             metrics = parse_prometheus_metrics float (res_text r)\<rparr>,
                          Print l])))
       \<and> (\<forall>r. http_get env (length tr) url = Inr r \<and> status_code r \<noteq> 200 \<longrightarrow>
            poll_source float env tr url =
              Inr (tr @ [HttpGet url, Print (CannotFetch url (status_code r))]))
       \<and> (\<forall>e. http_get env (length tr) url = Inl e \<longrightarrow>
            poll_source float env tr url = Inr (tr @ [HttpGet url, Print (FetchError url e)]))"
proof (intro conjI allI impI)
  fix r
  assume r: "http_get env (length tr) url = Inr r \<and> status_code r = 200"
  obtain l where "push_to_elasticsearch env (tr @ [HttpGet url]) sn
                    (parse_prometheus_metrics float (res_text r))
       = (tr @ [HttpGet url]) @ [HttpPost ELASTIC_URL []
                 \<lparr>timestamp = utcnow env (length (tr @ [HttpGet url])), service = sn,
                  metrics = parse_prometheus_metrics float (res_text r)\<rparr>, Print l]"
    using push_to_elasticsearch_trace by blast
  then show "\<exists>l. poll_source float env tr url =
               Inr (tr @ [HttpGet url,
                          HttpPost ELASTIC_URL []
                            \<lparr>timestamp = utcnow env (Suc (length tr)), service = sn,
                             metrics = parse_prometheus_metrics float (res_text r)\<rparr>,
                          Print l])"
    using r poll_source_ok [OF assms, of env tr r float] by simp
next
  fix r
  assume "http_get env (length tr) url = Inr r \<and> status_code r \<noteq> 200"
  then show "poll_source float env tr url =
              Inr (tr @ [HttpGet url, Print (CannotFetch url (status_code r))])"
    using poll_source_status [OF assms] by blast
next
  fix e
  assume "http_get env (length tr) url = Inl e"
  then show "poll_source float env tr url = Inr (tr @ [HttpGet url, Print (FetchError url e)])"
    using poll_source_raise [OF assms] by blast
qed

text \<open>
  Claim C5 as it is written fails at the 2xx status 204: the source is skipped, nothing is
  parsed or pushed.
\<close>

theorem other_2xx_skipped_counterexample:
  "poll_source (map_of [(''1'', 1::int)])
     (steady (Inr \<lparr>status_code = 204, res_text = ''up 1''\<rparr>)
             (Inr \<lparr>status_code = 201, res_text = ''''\<rparr>) (0::nat))
     [] ''http://localhost:8000/metrics''
   = Inr [HttpGet ''http://localhost:8000/metrics'',
          Print (CannotFetch ''http://localhost:8000/metrics'' 204)]"
  by (simp add: poll_source_def endpoint_names steady_simps)

text \<open>The theorem at the first configured source answering 200, answering 404, and timing out.\<close>

theorem fetch_success_is_status_200_witness:
  "(\<exists>l. poll_source (map_of [(''1'', 1::int)])
          (steady (Inr \<lparr>status_code = 200, res_text = ''''\<rparr>)
                  (Inr \<lparr>status_code = 201, res_text = ''''\<rparr>) (0::nat))
          [] ''http://localhost:8000/metrics''
        = Inr [HttpGet ''http://localhost:8000/metrics'',
               HttpPost ELASTIC_URL [] \<lparr>timestamp = 0, service = ''8000'', metrics = Map.empty\<rparr>,
               Print l])
   \<and> poll_source (map_of [(''1'', 1::int)])
          (steady (Inr \<lparr>status_code = 404, res_text = ''''\<rparr>)
                  (Inr \<lparr>status_code = 201, res_text = ''''\<rparr>) (0::nat))
          [] ''http://localhost:8000/metrics''
        = Inr [HttpGet ''http://localhost:8000/metrics'',
               Print (CannotFetch ''http://localhost:8000/metrics'' 404)]
   \<and> poll_source (map_of [(''1'', 1::int)])
          (steady (Inl Timeout) (Inr \<lparr>status_code = 201, res_text = ''''\<rparr>) (0::nat))
          [] ''http://localhost:8000/metrics''
        = Inr [HttpGet ''http://localhost:8000/metrics'',
               Print (FetchError ''http://localhost:8000/metrics'' Timeout)]"
proof -
  let ?f = "map_of [(''1'', 1::int)]"
  let ?u = "''http://localhost:8000/metrics''"
  let ?tr = "[] :: (nat, int) payload event list"
  let ?ok = "Inr \<lparr>status_code = 201, res_text = ''''\<rparr> :: http"
  let ?e1 = "steady (Inr \<lparr>status_code = 200, res_text = ''''\<rparr>) ?ok (0::nat) :: (nat, int) env"
  let ?e2 = "steady (Inr \<lparr>status_code = 404, res_text = ''''\<rparr>) ?ok (0::nat) :: (nat, int) env"
  let ?e3 = "steady (Inl Timeout) ?ok (0::nat) :: (nat, int) env"
  from fetch_success_is_status_200 [OF endpoint_names(1), of ?e1 ?tr ?f]
  have "\<forall>r. http_get ?e1 (length ?tr) ?u = Inr r \<and> status_code r = 200 \<longrightarrow>
            (\<exists>l. poll_source ?f ?e1 ?tr ?u =
               Inr (?tr @ [HttpGet ?u,
                          HttpPost ELASTIC_URL []
                            \<lparr>timestamp = utcnow ?e1 (Suc (length ?tr)), service = ''8000'',
                             metrics = parse_prometheus_metrics ?f (res_text r)\<rparr>,
                          Print l]))"
    by (rule conjunct1)
  then have "http_get ?e1 (length ?tr) ?u = Inr \<lparr>status_code = 200, res_text = ''''\<rparr>
               \<and> status_code \<lparr>status_code = 200, res_text = ''''\<rparr> = 200 \<longrightarrow>
            (\<exists>l. poll_source ?f ?e1 ?tr ?u =
               Inr (?tr @ [HttpGet ?u,
                          HttpPost ELASTIC_URL []
                            \<lparr>timestamp = utcnow ?e1 (Suc (length ?tr)), service = ''8000'',
                             metrics = parse_prometheus_metrics ?f
                                         (res_text \<lparr>status_code = 200, res_text = ''''\<rparr>)\<rparr>,
                          Print l]))"
    by (rule spec)
  then have a: "\<exists>l. poll_source ?f ?e1 ?tr ?u =
      Inr [HttpGet ?u,
           HttpPost ELASTIC_URL [] \<lparr>timestamp = 0, service = ''8000'', metrics = Map.empty\<rparr>,
           Print l]"
    by (simp add: steady_simps parse_empty_text)
  from fetch_success_is_status_200 [OF endpoint_names(1), of ?e2 ?tr ?f]
  have b: "poll_source ?f ?e2 ?tr ?u = Inr [HttpGet ?u, Print (CannotFetch ?u 404)]"
    by (simp add: steady_simps)
  from fetch_success_is_status_200 [OF endpoint_names(1), of ?e3 ?tr ?f]
  have c: "poll_source ?f ?e3 ?tr ?u = Inr [HttpGet ?u, Print (FetchError ?u Timeout)]"
    by (simp add: steady_simps)
  from a b c show ?thesis by blast
qed

lemma poll_sources_total:
  assumes "\<forall>u \<in> set urls. \<exists>s. service_name_of u = Inr s"
  shows "\<exists>tr'. poll_sources float env tr urls = Inr tr'"
  using assms
proof (induction urls arbitrary: tr)
  case Nil
  then show ?case by simp
next
  case (Cons u urls)
  from Cons.prems obtain s where s: "service_name_of u = Inr s"
    by (meson list.set_intros(1))
  have "\<exists>tr1. poll_source float env tr u = Inr tr1"
    by (simp add: poll_source_def s Let_def split: sum.splits)
  then obtain tr1 where tr1: "poll_source float env tr u = Inr tr1" ..
  from Cons.prems have "\<forall>u \<in> set urls. \<exists>s. service_name_of u = Inr s"
    by simp
  then have "\<exists>tr'. poll_sources float env tr1 urls = Inr tr'"
    by (rule Cons.IH)
  then show ?case
    by (simp add: tr1)
qed

text \<open>
  Claim C7. In a pass over two sources of which the first always fails (its fetch raises or
  answers with a status other than 200) and the second always answers 200, the pass is not
  aborted: after the line printed for the first source the second is fetched, its text is
  parsed and its document is posted, at whatever moment the pass starts.
\<close>

theorem failing_source_does_not_stop_next:
  fixes float :: "string \<Rightarrow> 'v option" and env :: "('t, 'v) env"
  assumes n1: "service_name_of u1 = Inr s1" and n2: "service_name_of u2 = Inr s2"
    and fails: "\<forall>t. case http_get env t u1 of Inl e \<Rightarrow> True | Inr r \<Rightarrow> status_code r \<noteq> 200"
    and succeeds: "\<forall>t. http_get env t u2 = Inr \<lparr>status_code = 200, res_text = body\<rparr>"
  shows "\<exists>l1 l2. poll_sources float env tr [u1, u2] =
           Inr (tr @ [HttpGet u1, Print l1, HttpGet u2,
                      HttpPost ELASTIC_URL []
                        \<lparr>timestamp = utcnow env (length tr + 3), service = s2,
                         metrics = parse_prometheus_metrics float body\<rparr>,
                      Print l2])"
proof -
  have "\<exists>l1. poll_source float env tr u1 = Inr (tr @ [HttpGet u1, Print l1])"
  proof (cases "http_get env (length tr) u1")
    case (Inl e)
    then show ?thesis using poll_source_raise [OF n1] by blast
  next
    case (Inr r)
    from fails have "case http_get env (length tr) u1 of
                       Inl e \<Rightarrow> True | Inr r \<Rightarrow> status_code r \<noteq> 200" ..
    then have "status_code r \<noteq> 200"
      by (simp add: Inr)
    with Inr show ?thesis using poll_source_status [OF n1] by blast
  qed
  then obtain l1 where 1: "poll_source float env tr u1 = Inr (tr @ [HttpGet u1, Print l1])" ..
  let ?tr1 = "tr @ [HttpGet u1, Print l1]"
  from succeeds have g: "http_get env (length ?tr1) u2 = Inr \<lparr>status_code = 200, res_text = body\<rparr>" ..
  have 2: "poll_source float env ?tr1 u2 =
             Inr (push_to_elasticsearch env (?tr1 @ [HttpGet u2]) s2
                    (parse_prometheus_metrics float body))"
    using poll_source_ok [OF n2 g, of float] by simp
  obtain l2 where 3: "push_to_elasticsearch env (?tr1 @ [HttpGet u2]) s2
                    (parse_prometheus_metrics float body)
       = (?tr1 @ [HttpGet u2]) @ [HttpPost ELASTIC_URL []
                 \<lparr>timestamp = utcnow env (length (?tr1 @ [HttpGet u2])), service = s2,
                  metrics = parse_prometheus_metrics float body\<rparr>, Print l2]"
    using push_to_elasticsearch_trace by blast
  have "length (?tr1 @ [HttpGet u2]) = length tr + 3" by simp
  with 1 2 3 have "poll_sources float env tr [u1, u2] =
           Inr (tr @ [HttpGet u1, Print l1, HttpGet u2,
                      HttpPost ELASTIC_URL []
                        \<lparr>timestamp = utcnow env (length tr + 3), service = s2,
                         metrics = parse_prometheus_metrics float body\<rparr>,
                      Print l2])"
    by (simp add: numeral_3_eq_3)
  then show ?thesis by blast
qed

text \<open>The theorem at the two configured sources, the first unreachable.\<close>

theorem failing_source_does_not_stop_next_witness:
  "\<exists>l1 l2. poll_sources (map_of [(''1'', 1::int)])
             (one_source_up ''http://localhost:8011/metrics'' ''''
                (Inr \<lparr>status_code = 201, res_text = ''''\<rparr>) (0::nat))
             [] PROM_ENDPOINTS
      = Inr [HttpGet ''http://localhost:8000/metrics'', Print l1,
             HttpGet ''http://localhost:8011/metrics'',
             HttpPost ELASTIC_URL [] \<lparr>timestamp = 0, service = ''8011'', metrics = Map.empty\<rparr>,
             Print l2]"
proof -
  let ?f = "map_of [(''1'', 1::int)]"
  let ?env = "one_source_up ''http://localhost:8011/metrics'' ''''
                (Inr \<lparr>status_code = 201, res_text = ''''\<rparr>) (0::nat) :: (nat, int) env"
  let ?tr = "[] :: (nat, int) payload event list"
  have fails: "\<forall>t. case http_get ?env t ''http://localhost:8000/metrics'' of
                     Inl e \<Rightarrow> True | Inr r \<Rightarrow> status_code r \<noteq> 200"
    by (simp add: one_source_up_def)
  have succeeds: "\<forall>t. http_get ?env t ''http://localhost:8011/metrics''
                     = Inr \<lparr>status_code = 200, res_text = ''''\<rparr>"
    by (simp add: one_source_up_def)
  from failing_source_does_not_stop_next [OF endpoint_names fails succeeds, of ?f ?tr]
  show ?thesis
    by (simp add: PROM_ENDPOINTS_def parse_empty_text one_source_up_def)
qed

section \<open>Properties of the retrying POST\<close>







text \<open>
  Claim C2, as amended. The controller retries exceptions only. When the first two attempts
  raise and the third gets a response, it makes exactly three POSTs with two sleeps between
  them, of \<open>backoff\<close> and twice \<open>backoff\<close>, the second strictly longer, and returns that
  response. A response to the first attempt is returned at once whatever its status, with no
  sleep and no second attempt.
\<close>

theorem retries_on_exceptions_only:
  assumes "post 0 = Inl e0" and "post 1 = Inl e1" and "post 2 = Inr r"
    and "0 < backoff" and "3 \<le> attempts"
  shows "post_json_with_retries post url payload attempts backoff
           = (Inr r,
              [HttpPost url [(''Content-Type'', ''application/json'')] (dumps payload),
               Sleep (backoff * 1),
               HttpPost url [(''Content-Type'', ''application/json'')] (dumps payload),
               Sleep (backoff * 2),
               HttpPost url [(''Content-Type'', ''application/json'')] (dumps payload)])
       \<and> backoff * 1 < backoff * 2
       \<and> (\<forall>post' r0. post' 0 = Inr r0 \<longrightarrow>
             post_json_with_retries post' url payload attempts backoff
               = (Inr r0, [HttpPost url [(''Content-Type'', ''application/json'')] (dumps payload)]))"
proof -
  from assms(5) have "3 \<le> nat attempts" by simp
  then obtain k where k: "nat attempts = Suc (Suc (Suc k))"
    by (metis add_Suc_right add_Suc numeral_3_eq_3 le_Suc_ex add_0)
  have n1: "\<not> backoff * real (0 + 1) < 0" and n2: "\<not> backoff * real (0 + 1 + 1) < 0"
    using assms(4) by (simp_all add: not_less)
  have a: "post_json_with_retries post url payload attempts backoff
           = (Inr r,
              [HttpPost url [(''Content-Type'', ''application/json'')] (dumps payload),
               Sleep (backoff * 1),
               HttpPost url [(''Content-Type'', ''application/json'')] (dumps payload),
               Sleep (backoff * 2),
               HttpPost url [(''Content-Type'', ''application/json'')] (dumps payload)])"
  proof -
    have p1: "post (Suc 0) = Inl e1" using assms(2) by simp
    have p2: "post (Suc (Suc 0)) = Inr r" using assms(3) by (simp add: numeral_2_eq_2)
    show ?thesis
      using assms(1,4) by (simp add: post_json_with_retries_def k Let_def not_less p1 p2)
  qed
  have b: "backoff * 1 < backoff * 2"
    using assms(4) by simp
  have c: "\<forall>post' r0. post' 0 = Inr r0 \<longrightarrow>
             post_json_with_retries post' url payload attempts backoff
               = (Inr r0, [HttpPost url [(''Content-Type'', ''application/json'')] (dumps payload)])"
    by (simp add: post_json_with_retries_def k Let_def)
  from a b c show ?thesis by blast
qed

text \<open>
  Claim C2 as it is written fails: when the sink answers 503, 503 and then 201, the
  controller returns the first 503 response after one POST and no sleep.
\<close>

theorem status_503_not_retried_counterexample:
  "post_json_with_retries
     (outcomes [Inr \<lparr>status_code = 503, res_text = ''''\<rparr>,
                Inr \<lparr>status_code = 503, res_text = ''''\<rparr>,
                Inr \<lparr>status_code = 201, res_text = ''''\<rparr>])
     ''http://es/_doc'' (JObj []) 3 (1 / 2)
   = (Inr \<lparr>status_code = 503, res_text = ''''\<rparr>,
      [HttpPost ''http://es/_doc'' [(''Content-Type'', ''application/json'')] ''{}''])"
  by (simp add: post_json_with_retries_def outcomes_def numeral_3_eq_3 Let_def)

text \<open>
  The theorem at a connection error, a timeout and then 201, and at a first response of
  status 500.
\<close>

theorem retries_on_exceptions_only_witness:
  "post_json_with_retries
     (outcomes [Inl ConnectionError, Inl Timeout, Inr \<lparr>status_code = 201, res_text = ''''\<rparr>])
     ''http://es/_doc'' (JObj []) 3 (1 / 2)
   = (Inr \<lparr>status_code = 201, res_text = ''''\<rparr>,
      [HttpPost ''http://es/_doc'' [(''Content-Type'', ''application/json'')] ''{}'',
       Sleep (1 / 2),
       HttpPost ''http://es/_doc'' [(''Content-Type'', ''application/json'')] ''{}'',
       Sleep 1,
       HttpPost ''http://es/_doc'' [(''Content-Type'', ''application/json'')] ''{}''])
   \<and> post_json_with_retries
     (outcomes [Inr \<lparr>status_code = 500, res_text = ''''\<rparr>])
     ''http://es/_doc'' (JObj []) 3 (1 / 2)
   = (Inr \<lparr>status_code = 500, res_text = ''''\<rparr>,
      [HttpPost ''http://es/_doc'' [(''Content-Type'', ''application/json'')] ''{}''])"
proof -
  let ?post = "outcomes [Inl ConnectionError, Inl Timeout, Inr \<lparr>status_code = 201, res_text = ''''\<rparr>]"
  have p0: "?post 0 = Inl ConnectionError" and p1: "?post 1 = Inl Timeout"
    and p2: "?post 2 = Inr \<lparr>status_code = 201, res_text = ''''\<rparr>"
    by (simp_all add: outcomes_def)
  have b: "(0::real) < 1 / 2" and n: "(3::int) \<le> 3" by simp_all
  note th = retries_on_exceptions_only [OF p0 p1 p2 b n, of "''http://es/_doc''" "JObj []"]
  from th have a: "post_json_with_retries ?post ''http://es/_doc'' (JObj []) 3 (1 / 2)
   = (Inr \<lparr>status_code = 201, res_text = ''''\<rparr>,
      [HttpPost ''http://es/_doc'' [(''Content-Type'', ''application/json'')] ''{}'',
       Sleep (1 / 2),
       HttpPost ''http://es/_doc'' [(''Content-Type'', ''application/json'')] ''{}'',
       Sleep 1,
       HttpPost ''http://es/_doc'' [(''Content-Type'', ''application/json'')] ''{}''])"
    by simp
  let ?post' = "outcomes [Inr \<lparr>status_code = 500, res_text = ''''\<rparr>]"
  have q0: "?post' 0 = Inr \<lparr>status_code = 500, res_text = ''''\<rparr>"
    by (simp add: outcomes_def)
  from th have "\<forall>post' r0. post' 0 = Inr r0 \<longrightarrow>
             post_json_with_retries post' ''http://es/_doc'' (JObj []) 3 (1 / 2)
               = (Inr r0, [HttpPost ''http://es/_doc'' [(''Content-Type'', ''application/json'')]
                             (dumps (JObj []))])"
    by (elim conjE)
  with q0 have "post_json_with_retries ?post' ''http://es/_doc'' (JObj []) 3 (1 / 2)
               = (Inr \<lparr>status_code = 500, res_text = ''''\<rparr>,
                  [HttpPost ''http://es/_doc'' [(''Content-Type'', ''application/json'')]
                             (dumps (JObj []))])"
    by blast
  then have c: "post_json_with_retries ?post' ''http://es/_doc'' (JObj []) 3 (1 / 2)
               = (Inr \<lparr>status_code = 500, res_text = ''''\<rparr>,
                  [HttpPost ''http://es/_doc'' [(''Content-Type'', ''application/json'')] ''{}''])"
    by simp
  from a c show ?thesis by blast
qed

section \<open>Properties of the bulk writer\<close>

lemma bulk_data_foldl:
  "foldl (\<lambda>acc doc. (acc @ a @ ''\<newline>'') @ dumps doc @ ''\<newline>'') acc docs
     = acc @ concat (map (\<lambda>d. a @ ''\<newline>'' @ dumps d @ ''\<newline>'') docs)"
  by (induction docs arbitrary: acc) simp_all

lemma unlines_bulk_lines:
  "concat (map (\<lambda>l. l @ ''\<newline>'') (bulk_lines docs))
     = concat (map (\<lambda>d. dumps (index_action ''prometheus_bridge'') @ ''\<newline>'' @ dumps d @ ''\<newline>'') docs)"
  by (induction docs) (simp_all add: bulk_lines_def)

lemma join_unlines:
  "xs \<noteq> [] \<Longrightarrow> join ''\<newline>'' xs @ ''\<newline>'' = concat (map (\<lambda>l. l @ ''\<newline>'') xs)"
  by (induction "''\<newline>''" xs rule: join.induct) simp_all

lemma bulk_lines_Cons:
  "bulk_lines (d # ds) = dumps (index_action ''prometheus_bridge'') # dumps d # bulk_lines ds"
  by (simp add: bulk_lines_def)

lemma length_bulk_lines: "length (bulk_lines docs) = 2 * length docs"
  by (induction docs) (simp_all add: bulk_lines_Cons, simp add: bulk_lines_def)

lemma nth_bulk_lines:
  "i < length docs \<Longrightarrow>
     bulk_lines docs ! (2 * i) = dumps (index_action ''prometheus_bridge'')
     \<and> bulk_lines docs ! (2 * i + 1) = dumps (docs ! i)"
proof (induction docs arbitrary: i)
  case Nil
  then show ?case by simp
next
  case (Cons d ds)
  show ?case
  proof (cases i)
    case 0
    then show ?thesis by (simp add: bulk_lines_Cons)
  next
    case (Suc j)
    with Cons.prems have "j < length ds" by simp
    from Cons.IH [OF this] show ?thesis
      by (simp add: bulk_lines_Cons Suc)
  qed
qed

lemma action_text:
  "dumps (index_action INDEX) = ''{\"index\": {\"_index\": \"prometheus_bridge\"}}''"
  by (simp add: index_action_def INDEX_def dumps_str_def escape_char_def)

lemma bulk_lines_nonempty: "docs \<noteq> [] \<Longrightarrow> bulk_lines docs \<noteq> []"
  by (cases docs) (simp_all add: bulk_lines_Cons)

lemma bulk_body_unlines:
  "docs \<noteq> [] \<Longrightarrow> bulk_body docs = concat (map (\<lambda>l. l @ ''\<newline>'') (bulk_lines docs))"
  by (simp add: bulk_body_def join_unlines bulk_lines_nonempty)

lemma bulk_data_is_bulk_body:
  assumes "docs \<noteq> []"
  shows "foldl (\<lambda>acc doc. (acc @ dumps (index_action INDEX) @ ''\<newline>'') @ dumps doc @ ''\<newline>'') [] docs
           = bulk_body docs"
  unfolding bulk_data_foldl bulk_body_unlines [OF assms] unlines_bulk_lines
  by (simp add: INDEX_def)

lemma hex_digit_no_break: "\<not> is_linebreak (hex_digit n)"
proof -
  have "n mod 16 < length ''0123456789abcdef''" by simp
  then have "''0123456789abcdef'' ! (n mod 16) \<in> set ''0123456789abcdef''"
    by (rule nth_mem)
  moreover have "\<forall>c \<in> set ''0123456789abcdef''. \<not> is_linebreak c"
    by (simp add: is_linebreak_def)
  ultimately show ?thesis
    unfolding hex_digit_def by blast
qed

lemma escape_char_no_break: "c' \<in> set (escape_char c) \<Longrightarrow> \<not> is_linebreak c'"
proof -
  assume c': "c' \<in> set (escape_char c)"
  have plain_chars: "\<not> is_linebreak CHR 0x5C" "\<not> is_linebreak CHR 0x22" "\<not> is_linebreak CHR ''n''"
    "\<not> is_linebreak CHR ''r''" "\<not> is_linebreak CHR ''t''" "\<not> is_linebreak CHR ''b''"
    "\<not> is_linebreak CHR ''f''" "\<not> is_linebreak CHR ''u''" "\<not> is_linebreak CHR ''0''"
    by (simp_all add: is_linebreak_def)
  have printable: "\<not> ((of_char c :: nat) < 32 \<or> 126 < (of_char c :: nat)) \<Longrightarrow> \<not> is_linebreak c"
    by (auto simp: is_linebreak_def)
  from c' show ?thesis
    unfolding escape_char_def
    by (auto simp: plain_chars hex_digit_no_break printable split: if_splits)
qed

lemma dumps_str_no_break: "c \<in> set (dumps_str s) \<Longrightarrow> \<not> is_linebreak c"
  by (auto simp: dumps_str_def is_linebreak_def dest: escape_char_no_break)

lemma join_no_break:
  assumes "\<forall>c \<in> set sep. \<not> is_linebreak c" and "\<forall>x \<in> set xs. \<forall>c \<in> set x. \<not> is_linebreak c"
  shows "\<forall>c \<in> set (join sep xs). \<not> is_linebreak c"
  using assms by (induction sep xs rule: join.induct) auto

lemma dumps_no_break: "plain j \<Longrightarrow> \<forall>c \<in> set (dumps j). \<not> is_linebreak c"
proof (induction j rule: dumps.induct)
  case 1
  show ?case by (simp add: is_linebreak_def)
next
  case (2 b)
  show ?case by (simp add: is_linebreak_def)
next
  case (3 s)
  then show ?case by simp
next
  case (4 s)
  show ?case using dumps_str_no_break by auto
next
  case (5 xs)
  have sep: "\<forall>c \<in> set '', ''. \<not> is_linebreak c" by (simp add: is_linebreak_def)
  have "\<forall>x \<in> set (map dumps xs). \<forall>c \<in> set x. \<not> is_linebreak c"
    using 5 by auto
  with sep have "\<forall>c \<in> set (join '', '' (map dumps xs)). \<not> is_linebreak c"
    by (rule join_no_break)
  then show ?case by (auto simp: is_linebreak_def)
next
  case (6 kvs)
  have sep: "\<forall>c \<in> set '', ''. \<not> is_linebreak c" by (simp add: is_linebreak_def)
  have "\<forall>x \<in> set (map (\<lambda>kv. dumps_str (fst kv) @ '': '' @ dumps (snd kv)) kvs).
          \<forall>c \<in> set x. \<not> is_linebreak c"
  proof (intro ballI)
    fix x c
    assume "x \<in> set (map (\<lambda>kv. dumps_str (fst kv) @ '': '' @ dumps (snd kv)) kvs)" and c: "c \<in> set x"
    then obtain kv where kv: "kv \<in> set kvs" and x: "x = dumps_str (fst kv) @ '': '' @ dumps (snd kv)"
      by auto
    from kv 6 have "\<forall>c \<in> set (dumps (snd kv)). \<not> is_linebreak c" by auto
    with c x show "\<not> is_linebreak c"
      using dumps_str_no_break by (auto simp: is_linebreak_def)
  qed
  with sep have "\<forall>c \<in> set (join '', '' (map (\<lambda>kv. dumps_str (fst kv) @ '': '' @ dumps (snd kv)) kvs)).
                   \<not> is_linebreak c"
    by (rule join_no_break)
  then show ?case by (auto simp: is_linebreak_def)
qed

lemma splitlines_from_line:
  assumes "\<forall>c \<in> set l. \<not> is_linebreak c"
  shows "splitlines_from cur (l @ CHR 0x0A # rest) = (rev cur @ l) # splitlines_from [] rest"
  using assms
proof (induction l arbitrary: cur)
  case Nil
  show ?case by (cases rest) (simp_all add: is_linebreak_def)
next
  case (Cons c l)
  from Cons.prems have c: "\<not> is_linebreak c" and l: "\<forall>c \<in> set l. \<not> is_linebreak c"
    by simp_all
  from c have cr: "c \<noteq> CHR 0x0D" by (auto simp: is_linebreak_def)
  obtain d ds where d: "l @ CHR 0x0A # rest = d # ds"
    by (cases "l @ CHR 0x0A # rest") simp_all
  have "splitlines_from cur ((c # l) @ CHR 0x0A # rest) = splitlines_from cur (c # d # ds)"
    by (simp add: d)
  also have "\<dots> = splitlines_from (c # cur) (d # ds)"
    using c cr by simp
  also have "\<dots> = splitlines_from (c # cur) (l @ CHR 0x0A # rest)"
    by (simp add: d)
  also have "\<dots> = (rev (c # cur) @ l) # splitlines_from [] rest"
    using l by (rule Cons.IH)
  finally show ?case by simp
qed

lemma splitlines_unlines:
  assumes "\<forall>l \<in> set ls. \<forall>c \<in> set l. \<not> is_linebreak c"
  shows "splitlines (concat (map (\<lambda>l. l @ ''\<newline>'') ls)) = ls"
  using assms
proof (induction ls)
  case Nil
  show ?case by (simp add: splitlines_def)
next
  case (Cons l ls)
  from Cons.prems have l: "\<forall>c \<in> set l. \<not> is_linebreak c" by simp
  from Cons have ih: "splitlines_from [] (concat (map (\<lambda>l. l @ ''\<newline>'') ls)) = ls"
    by (simp add: splitlines_def)
  have "splitlines (concat (map (\<lambda>l. l @ ''\<newline>'') (l # ls)))
          = splitlines_from [] (l @ CHR 0x0A # concat (map (\<lambda>l. l @ ''\<newline>'') ls))"
    by (simp add: splitlines_def)
  also have "\<dots> = (rev [] @ l) # splitlines_from [] (concat (map (\<lambda>l. l @ ''\<newline>'') ls))"
    using l by (rule splitlines_from_line)
  finally show ?case by (simp add: ih)
qed

lemma bulk_lines_no_break:
  assumes "\<forall>d \<in> set docs. plain d"
  shows "\<forall>l \<in> set (bulk_lines docs). \<forall>c \<in> set l. \<not> is_linebreak c"
proof -
  have "plain (index_action ''prometheus_bridge'')"
    by (simp add: index_action_def)
  then have a: "\<forall>c \<in> set (dumps (index_action ''prometheus_bridge'')). \<not> is_linebreak c"
    by (rule dumps_no_break)
  from assms show ?thesis
  proof (induction docs)
    case Nil
    show ?case by (simp add: bulk_lines_def)
  next
    case (Cons d ds)
    then have "plain d" by simp
    then have "\<forall>c \<in> set (dumps d). \<not> is_linebreak c" by (rule dumps_no_break)
    with a Cons show ?case by (simp add: bulk_lines_Cons)
  qed
qed

text \<open>
  Claim C8. For a list of \<open>n\<close> documents that is not empty the bulk writer sends one POST to
  the bulk endpoint with the header Content-Type: application/x-ndjson. Its body is the one
  the loader builds too: \<open>2n\<close> lines, each ended by a newline, the action line
  \<open>{"index": {"_index": "prometheus_bridge"}}\<close> before the JSON text of each document in the
  order of the list, so that the body ends with a newline; and since the JSON text holds no
  line boundary, the body splits into exactly these lines. The writer prints no failure line
  exactly when the sink answers 200 or 201.
\<close>

theorem bulk_write_ndjson:
  assumes "docs \<noteq> []"
  shows "(\<exists>log. push_bulk_to_es post docs
                  = HttpPost ''http://localhost:9200/_bulk''
                      [(''Content-Type'', ''application/x-ndjson'')] (bulk_body docs) # log
               \<and> (log = [] \<longleftrightarrow>
                    (\<exists>r. post (bulk_body docs) = Inr r
                         \<and> (status_code r = 200 \<or> status_code r = 201))))
       \<and> bulk_body docs = concat (map (\<lambda>l. l @ ''\<newline>'') (bulk_lines docs))
       \<and> length (bulk_lines docs) = 2 * length docs
       \<and> (\<forall>i < length docs.
             bulk_lines docs ! (2 * i) = ''{\"index\": {\"_index\": \"prometheus_bridge\"}}''
             \<and> bulk_lines docs ! (2 * i + 1) = dumps (docs ! i))
       \<and> last (bulk_body docs) = CHR 0x0A
       \<and> ((\<forall>d \<in> set docs. plain d) \<longrightarrow> splitlines (bulk_body docs) = bulk_lines docs)"
proof -
  note body = bulk_data_is_bulk_body [OF assms]
  have a: "\<exists>log. push_bulk_to_es post docs
                  = HttpPost ''http://localhost:9200/_bulk''
                      [(''Content-Type'', ''application/x-ndjson'')] (bulk_body docs) # log
               \<and> (log = [] \<longleftrightarrow>
                    (\<exists>r. post (bulk_body docs) = Inr r
                         \<and> (status_code r = 200 \<or> status_code r = 201)))"
  proof -
    have pb: "push_bulk_to_es post docs
                = HttpPost (ES @ ''/_bulk'') [(''Content-Type'', ''application/x-ndjson'')] (bulk_body docs) #
                  (case post (bulk_body docs) of
                     Inr r \<Rightarrow>
                       if status_code r \<noteq> 200 \<and> status_code r \<noteq> 201
                       then [Print (BulkFailed (status_code r) (take 300 (res_text r)))]
                       else []
                   | Inl e \<Rightarrow> [Print (BulkError e)])"
      unfolding push_bulk_to_es_def Let_def body using assms by simp
    show ?thesis
      unfolding pb by (cases "post (bulk_body docs)") (simp_all add: ES_def)
  qed
  note b = bulk_body_unlines [OF assms]
  note c = length_bulk_lines [of docs]
  note act = action_text [unfolded INDEX_def]
  have d: "\<forall>i < length docs.
             bulk_lines docs ! (2 * i) = ''{\"index\": {\"_index\": \"prometheus_bridge\"}}''
             \<and> bulk_lines docs ! (2 * i + 1) = dumps (docs ! i)"
    using nth_bulk_lines [of _ docs] by (simp only: act) blast
  have e: "last (bulk_body docs) = CHR 0x0A"
    by (simp add: bulk_body_def)
  have f: "(\<forall>d \<in> set docs. plain d) \<longrightarrow> splitlines (bulk_body docs) = bulk_lines docs"
  proof
    assume "\<forall>d \<in> set docs. plain d"
    then have "\<forall>l \<in> set (bulk_lines docs). \<forall>c \<in> set l. \<not> is_linebreak c"
      by (rule bulk_lines_no_break)
    then have "splitlines (concat (map (\<lambda>l. l @ ''\<newline>'') (bulk_lines docs))) = bulk_lines docs"
      by (rule splitlines_unlines)
    then show "splitlines (bulk_body docs) = bulk_lines docs"
      by (simp only: b)
  qed
  from a b c d e f show ?thesis by blast
qed

lemma one_doc_text: "dumps (JObj [(''up'', JNum ''1'')]) = ''{\"up\": 1}''"
  by (simp add: dumps_str_def escape_char_def)

text \<open>The theorem at one document \<open>{"up": 1}\<close> and a sink that answers 200.\<close>

theorem bulk_write_ndjson_witness:
  "push_bulk_to_es (\<lambda>body. Inr \<lparr>status_code = 200, res_text = ''''\<rparr>) [JObj [(''up'', JNum ''1'')]]
     = [HttpPost ''http://localhost:9200/_bulk'' [(''Content-Type'', ''application/x-ndjson'')]
          ''{\"index\": {\"_index\": \"prometheus_bridge\"}}\<newline>{\"up\": 1}\<newline>'']
   \<and> splitlines (bulk_body [JObj [(''up'', JNum ''1'')]])
     = [''{\"index\": {\"_index\": \"prometheus_bridge\"}}'', ''{\"up\": 1}'']"
proof -
  let ?docs = "[JObj [(''up'', JNum ''1'')]]"
  let ?post = "\<lambda>body :: string. Inr \<lparr>status_code = 200, res_text = ''''\<rparr> :: http"
  have ne: "?docs \<noteq> []" by simp
  have pl: "\<forall>d \<in> set ?docs. plain d" by (simp add: is_linebreak_def)
  note th = bulk_write_ndjson [OF ne, of ?post]
  have lines: "bulk_lines ?docs = [''{\"index\": {\"_index\": \"prometheus_bridge\"}}'', ''{\"up\": 1}'']"
  proof -
    have "bulk_lines [] = []" by (simp add: bulk_lines_def)
    then show ?thesis
      by (simp only: bulk_lines_Cons action_text [unfolded INDEX_def] one_doc_text)
  qed
  from th have "bulk_body ?docs = concat (map (\<lambda>l. l @ ''\<newline>'') (bulk_lines ?docs))"
    by (elim conjE)
  then have body: "bulk_body ?docs = ''{\"index\": {\"_index\": \"prometheus_bridge\"}}\<newline>{\"up\": 1}\<newline>''"
    by (simp add: lines)
  from th obtain log where log: "push_bulk_to_es ?post ?docs
                  = HttpPost ''http://localhost:9200/_bulk''
                      [(''Content-Type'', ''application/x-ndjson'')] (bulk_body ?docs) # log"
    and ok: "log = [] \<longleftrightarrow>
                    (\<exists>r. ?post (bulk_body ?docs) = Inr r
                         \<and> (status_code r = 200 \<or> status_code r = 201))"
    by (elim conjE exE)
  from ok have "log = []" by simp
  with log have a: "push_bulk_to_es ?post ?docs
     = [HttpPost ''http://localhost:9200/_bulk'' [(''Content-Type'', ''application/x-ndjson'')]
          ''{\"index\": {\"_index\": \"prometheus_bridge\"}}\<newline>{\"up\": 1}\<newline>'']"
    by (simp only: body)
  from th have "(\<forall>d \<in> set ?docs. plain d) \<longrightarrow> splitlines (bulk_body ?docs) = bulk_lines ?docs"
    by (elim conjE)
  with pl have "splitlines (bulk_body ?docs) = bulk_lines ?docs" by (rule rev_mp)
  then have b: "splitlines (bulk_body ?docs)
     = [''{\"index\": {\"_index\": \"prometheus_bridge\"}}'', ''{\"up\": 1}'']"
    by (simp only: lines)
  from a b show ?thesis by (rule conjI)
qed

text \<open>
  Claim C10. Called with the empty list the bulk writer has no effect: no request is sent,
  nothing is printed.
\<close>

theorem push_bulk_to_es_empty: "push_bulk_to_es post [] = []"
  by (simp add: push_bulk_to_es_def)

end
